theory Spec2Isabelle
  imports Main "HOL-Library.Char_ord" "HOL-Library.List_Lexorder"
begin

section \<open>Text primitives of the Python runtime\<close>

text \<open>
  The program is \<^verbatim>\<open>src/core/simple_agent.py\<close>. A Python \<^verbatim>\<open>str\<close> is modelled as a HOL
  \<^typ>\<open>string\<close>; a \<^typ>\<open>char\<close> stands for the code point of the same number, so the model
  covers text over the code points 0 to 255. The three character tables below are
  those of CPython for that range: \<^verbatim>\<open>str.isspace\<close> (also used by \<^verbatim>\<open>\s\<close>, \<^verbatim>\<open>str.split()\<close>
  and \<^verbatim>\<open>str.strip()\<close>), the word characters of \<^verbatim>\<open>\w\<close> (alphanumerics and the
  underscore) and \<^verbatim>\<open>str.lower\<close>.
\<close>

definition nl :: char where
  "nl = CHR 0x0A"

definition is_space :: "char \<Rightarrow> bool" where
  "is_space c =
     (let n = (of_char c :: nat)
      in (9 \<le> n \<and> n \<le> 13) \<or> (28 \<le> n \<and> n \<le> 32) \<or> n = 133 \<or> n = 160)"

definition is_word :: "char \<Rightarrow> bool" where
  "is_word c =
     (let n = (of_char c :: nat)
      in (48 \<le> n \<and> n \<le> 57) \<or> (65 \<le> n \<and> n \<le> 90) \<or> n = 95 \<or> (97 \<le> n \<and> n \<le> 122)
         \<or> n = 170 \<or> n = 178 \<or> n = 179 \<or> n = 181 \<or> n = 185 \<or> n = 186
         \<or> (188 \<le> n \<and> n \<le> 190) \<or> (192 \<le> n \<and> n \<le> 214)
         \<or> (216 \<le> n \<and> n \<le> 246) \<or> (248 \<le> n \<and> n \<le> 255))"

definition lower_char :: "char \<Rightarrow> char" where
  "lower_char c =
     (let n = (of_char c :: nat)
      in if (65 \<le> n \<and> n \<le> 90) \<or> (192 \<le> n \<and> n \<le> 214) \<or> (216 \<le> n \<and> n \<le> 222)
         then char_of (n + 32) else c)"

definition lower :: "string \<Rightarrow> string" where
  "lower s = map lower_char s"

text \<open>\<^verbatim>\<open>s.strip()\<close>: whitespace is dropped at both ends.\<close>

definition strip :: "string \<Rightarrow> string" where
  "strip s = rev (dropWhile is_space (rev (dropWhile is_space s)))"

text \<open>
  \<^verbatim>\<open>s.split()\<close> with no argument: the runs of non-whitespace characters, in order. The
  scan keeps the word being read in \<open>cur\<close>.
\<close>

fun split_ws_from :: "string \<Rightarrow> string \<Rightarrow> string list" where
  "split_ws_from cur [] = (if cur = [] then [] else [cur])"
| "split_ws_from cur (c # cs) =
     (if is_space c
      then (if cur = [] then split_ws_from [] cs else cur # split_ws_from [] cs)
      else split_ws_from (cur @ [c]) cs)"

definition split_ws :: "string \<Rightarrow> string list" where
  "split_ws s = split_ws_from [] s"

text \<open>\<^verbatim>\<open>s.startswith(p)\<close> and \<^verbatim>\<open>sub in s\<close>.\<close>

definition startswith :: "string \<Rightarrow> string \<Rightarrow> bool" where
  "startswith s p = (take (length p) s = p)"

fun contains :: "string \<Rightarrow> string \<Rightarrow> bool" where
  "contains [] sub = (sub = [])"
| "contains (c # cs) sub = (startswith (c # cs) sub \<or> contains cs sub)"

text \<open>
  \<^verbatim>\<open>s.split(sep)\<close>: the text is scanned from the left; at an occurrence of \<open>sep\<close> the
  piece read so far is closed and the scan goes on behind the occurrence. Python raises
  \<^verbatim>\<open>ValueError\<close> for an empty separator; the program only splits on the constants
  \<^verbatim>\<open>"\n---\n"\<close> and \<^verbatim>\<open>"\n"\<close>, and the scan below never matches an empty separator.
\<close>

function split_from :: "string \<Rightarrow> string \<Rightarrow> string \<Rightarrow> string list" where
  "split_from sep cur [] = [cur]"
| "split_from sep cur (c # cs) =
     (if sep \<noteq> [] \<and> startswith (c # cs) sep
      then cur # split_from sep [] (drop (length sep) (c # cs))
      else split_from sep (cur @ [c]) cs)"
  by pat_completeness auto
termination
  by (relation "measure (\<lambda>(sep, cur, s). length s)") auto

definition split :: "string \<Rightarrow> string \<Rightarrow> string list" where
  "split s sep = split_from sep [] s"

text \<open>\<^verbatim>\<open>s.replace(old, new)\<close>: every occurrence found by the same left-to-right scan.\<close>

function replace :: "string \<Rightarrow> string \<Rightarrow> string \<Rightarrow> string" where
  "replace [] old new = (if old = [] then new else [])"
| "replace (c # cs) old new =
     (if old = [] then new @ c # replace cs old new
      else if startswith (c # cs) old then new @ replace (drop (length old) (c # cs)) old new
      else c # replace cs old new)"
  by pat_completeness auto
termination
  by (relation "measure (\<lambda>(s, old, new). length s)") auto

text \<open>\<^verbatim>\<open>sep.join(xs)\<close> and \<^verbatim>\<open>str(i)\<close> for a non-negative integer.\<close>

fun join :: "string \<Rightarrow> string list \<Rightarrow> string" where
  "join sep [] = []"
| "join sep [x] = x"
| "join sep (x # y # ys) = x @ sep @ join sep (y # ys)"

fun str :: "nat \<Rightarrow> string" where
  "str n = (if n < 10 then [char_of (48 + n)] else str (n div 10) @ [char_of (48 + n mod 10)])"

section \<open>Tokenizer and corpus loading\<close>

text \<open>
  \<^verbatim>\<open>tokenize\<close>: lower-case, delete what \<^verbatim>\<open>[^\w\s]\<close> matches, split on whitespace, collect
  into a set.
\<close>

definition tokenize :: "string \<Rightarrow> string set" where
  "tokenize text = set (split_ws (filter (\<lambda>c. is_word c \<or> is_space c) (lower text)))"

text \<open>
  An \<^verbatim>\<open>Exception\<close> is kept as its description \<^verbatim>\<open>str(e)\<close>. The outcome of opening and
  reading the corpus file is an input of the model: its text, \<^verbatim>\<open>FileNotFoundError\<close>, or
  another failure, which \<^verbatim>\<open>load_sources\<close> lets through. What \<^verbatim>\<open>except Exception\<close> does
  not catch (\<^verbatim>\<open>KeyboardInterrupt\<close>, \<^verbatim>\<open>SystemExit\<close>) is outside the model.
\<close>

datatype exn = Exception string

datatype file_read = Text string | FileNotFoundError | ReadFailure exn

definition separator :: string where
  "separator = [nl] @ ''---'' @ [nl]"

definition load_sources :: "file_read \<Rightarrow> exn + string list" where
  "load_sources f =
     (case f of
        Text content \<Rightarrow> Inr (split content separator)
      | FileNotFoundError \<Rightarrow> Inr []
      | ReadFailure e \<Rightarrow> Inl e)"

section \<open>The two tools\<close>

text \<open>
  \<^verbatim>\<open>search_sources\<close> reads the module constant \<^verbatim>\<open>SOURCES\<close>, here the first argument.
  The loop appends to \<open>matches\<close>.
\<close>

fun search_loop :: "string set \<Rightarrow> string list \<Rightarrow> string list \<Rightarrow> string list" where
  "search_loop query_tokens [] matches = matches"
| "search_loop query_tokens (block # rest) matches =
     search_loop query_tokens rest
       (if query_tokens \<inter> tokenize block \<noteq> {} then matches @ [strip block] else matches)"

definition search_sources :: "string list \<Rightarrow> string \<Rightarrow> string list" where
  "search_sources SOURCES query = search_loop (tokenize query) SOURCES []"

text \<open>
  \<^verbatim>\<open>summarize_sources\<close>. \<^verbatim>\<open>list(meaningful_words)\<close> lists a set in the iteration order of
  the runtime, which the program does not fix: the order is the parameter \<open>order\<close>.
\<close>

record summary =
  total_sources :: nat
  url_sources :: nat
  title_sources :: nat
  topics :: "string set"

definition meaningful_words :: "string \<Rightarrow> string set" where
  "meaningful_words src = Set.filter (\<lambda>w. 4 < length w) (tokenize src)"

fun summarize_loop :: "(string set \<Rightarrow> string list) \<Rightarrow> string list \<Rightarrow> summary \<Rightarrow> summary" where
  "summarize_loop order [] s = s"
| "summarize_loop order (src # rest) s =
     (let s1 = (if contains src ''URL:'' then s\<lparr>url_sources := url_sources s + 1\<rparr> else s);
          s2 = (if contains src ''TITLE:'' then s1\<lparr>title_sources := title_sources s1 + 1\<rparr> else s1);
          s3 = s2\<lparr>topics := topics s2 \<union> set (take 3 (order (meaningful_words src)))\<rparr>
      in summarize_loop order rest s3)"

definition summarize_sources :: "(string set \<Rightarrow> string list) \<Rightarrow> string list \<Rightarrow> summary" where
  "summarize_sources order sources =
     summarize_loop order sources
       \<lparr>total_sources = length sources, url_sources = 0, title_sources = 0, topics = {}\<rparr>"

section \<open>The graph nodes\<close>

record AgentState =
  conversation_history :: "string list"
  current_query :: string
  retrieved_sources :: "string list"
  final_answer :: string
  error :: string

definition planner_node :: "AgentState \<Rightarrow> AgentState" where
  "planner_node state =
     (if strip (current_query state) = []
      then state\<lparr>error := ''Empty query received.''\<rparr>
      else state\<lparr>error := []\<rparr>)"

text \<open>
  \<^verbatim>\<open>researcher_node\<close>: the body of the \<^verbatim>\<open>try\<close> calls the retriever, which may raise, and
  for a non-empty result the summarizer, whose counts are printed. The node returns
  the state and the text it printed. \<open>researcher_node_try\<close> is the node over any
  retriever; \<open>researcher_node\<close> is the node over \<^verbatim>\<open>search_sources\<close>.
\<close>

definition summary_message :: "summary \<Rightarrow> string" where
  "summary_message s =
     [nl] @ ''[Tool: summarize_sources] Found '' @ str (total_sources s) @ '' sources (''
       @ str (url_sources s) @ '' URLs, '' @ str (title_sources s) @ '' documents)''"

definition researcher_node_try ::
  "(string \<Rightarrow> exn + string list) \<Rightarrow> (string set \<Rightarrow> string list) \<Rightarrow> AgentState
     \<Rightarrow> AgentState \<times> string list" where
  "researcher_node_try search order state =
     (case search (current_query state) of
        Inr sources \<Rightarrow>
          (state\<lparr>retrieved_sources := sources\<rparr>,
           if sources \<noteq> [] then [summary_message (summarize_sources order sources)] else [])
      | Inl (Exception e) \<Rightarrow>
          (state\<lparr>error := ''Search error: '' @ e, retrieved_sources := []\<rparr>, []))"

definition researcher_node ::
  "string list \<Rightarrow> (string set \<Rightarrow> string list) \<Rightarrow> AgentState \<Rightarrow> AgentState \<times> string list" where
  "researcher_node SOURCES = researcher_node_try (\<lambda>query. Inr (search_sources SOURCES query))"

text \<open>
  \<^verbatim>\<open>responder_node\<close>. The inner loop scans the lines of one source and keeps
  \<open>(content, source_ref)\<close>; the outer loop numbers the sources from 1 and keeps
  \<open>(answer, references)\<close>.
\<close>

definition scan_line :: "string \<Rightarrow> string \<times> string \<Rightarrow> string \<times> string" where
  "scan_line line cr =
     (if startswith line ''CONTENT:'' then (strip (replace line ''CONTENT:'' []), snd cr)
      else if startswith line ''URL:'' then (fst cr, strip (replace line ''URL:'' []))
      else if startswith line ''TITLE:'' then (fst cr, strip (replace line ''TITLE:'' []))
      else cr)"

fun scan_lines :: "string list \<Rightarrow> string \<times> string \<Rightarrow> string \<times> string" where
  "scan_lines [] cr = cr"
| "scan_lines (line # lines) cr = scan_lines lines (scan_line line cr)"

definition extract_fields :: "string \<Rightarrow> string \<times> string" where
  "extract_fields src = scan_lines (split (strip src) [nl]) ([], [])"

fun render_loop :: "nat \<Rightarrow> string list \<Rightarrow> string \<times> string list \<Rightarrow> string \<times> string list" where
  "render_loop i [] ar = ar"
| "render_loop i (src # rest) ar =
     (let content = fst (extract_fields src);
          source_ref = snd (extract_fields src);
          answer = (if content \<noteq> [] then fst ar @ ''['' @ str i @ ''] '' @ content @ [nl, nl]
                    else fst ar);
          references = (if source_ref \<noteq> [] then snd ar @ [''['' @ str i @ ''] '' @ source_ref]
                        else snd ar)
      in render_loop (Suc i) rest (answer, references))"

definition responder_node :: "AgentState \<Rightarrow> AgentState" where
  "responder_node state =
     (let query = current_query state
      in if error state \<noteq> [] then state\<lparr>final_answer := ''Error: '' @ error state\<rparr>
         else if retrieved_sources state = []
         then state\<lparr>final_answer :=
                ''No relevant sources found for: '' @ [CHR 0x27] @ query @ [CHR 0x27] @ ''.'' @ [nl]
                  @ ''Try rephrasing your question.''\<rparr>
         else
           (let answer0 = ''Answer based on sources for: '' @ [CHR 0x27] @ query @ [CHR 0x27]
                            @ [nl, nl] @ ''=== CONTENT ==='' @ [nl, nl];
                ar = render_loop 1 (retrieved_sources state) (answer0, []);
                answer = (if snd ar \<noteq> []
                          then fst ar @ [nl] @ ''=== REFERENCES ==='' @ [nl] @ join [nl] (snd ar)
                          else fst ar)
            in state\<lparr>final_answer := answer\<rparr>))"

section \<open>The compiled graph\<close>

definition has_error :: "AgentState \<Rightarrow> string" where
  "has_error state = (if error state \<noteq> [] then ''error'' else ''ok'')"

text \<open>
  \<^verbatim>\<open>agent.invoke\<close>: the planner runs, then the edge chosen by \<^verbatim>\<open>has_error\<close> is taken, to
  the responder or through the researcher to the responder. The result is the final
  state with the text printed on the way.
\<close>

definition agent_invoke_try ::
  "(string \<Rightarrow> exn + string list) \<Rightarrow> (string set \<Rightarrow> string list) \<Rightarrow> AgentState
     \<Rightarrow> AgentState \<times> string list" where
  "agent_invoke_try search order state =
     (let planned = planner_node state
      in if has_error planned = ''error'' then (responder_node planned, [])
         else (let researched = researcher_node_try search order planned
               in (responder_node (fst researched), snd researched)))"

definition agent_invoke ::
  "string list \<Rightarrow> (string set \<Rightarrow> string list) \<Rightarrow> AgentState \<Rightarrow> AgentState \<times> string list" where
  "agent_invoke SOURCES = agent_invoke_try (\<lambda>query. Inr (search_sources SOURCES query))"

section \<open>The corpus delimiter as the specification words it\<close>

text \<open>
  The specification describes the block separator as a line that holds exactly three
  hyphens. \<open>split_at_delimiter_lines\<close> follows these words, to be compared with
  \<open>load_sources\<close>: the content is cut into lines, and the lines between two delimiter
  lines form a block.
\<close>

fun group_lines :: "string list \<Rightarrow> string list \<Rightarrow> string list list" where
  "group_lines cur [] = [cur]"
| "group_lines cur (l # ls) =
     (if l = ''---'' then cur # group_lines [] ls else group_lines (cur @ [l]) ls)"

definition split_at_delimiter_lines :: "string \<Rightarrow> string list" where
  "split_at_delimiter_lines content = map (join [nl]) (group_lines [] (split content [nl]))"

section \<open>Facts about the text primitives\<close>

declare str.simps [simp del]

lemma startswith_Nil [simp]: "startswith s []"
  by (simp add: startswith_def)

lemma startswith_iff: "startswith s p \<longleftrightarrow> (\<exists>q. s = p @ q)"
proof
  assume "startswith s p"
  then have "s = p @ drop (length p) s"
    by (metis append_take_drop_id startswith_def)
  then show "\<exists>q. s = p @ q" ..
next
  assume "\<exists>q. s = p @ q"
  then show "startswith s p" by (auto simp: startswith_def)
qed

lemma contains_iff: "contains s sub \<longleftrightarrow> (\<exists>p q. s = p @ sub @ q)"
proof (induction s)
  case Nil
  show ?case by auto
next
  case (Cons c cs)
  show ?case
  proof
    assume "contains (c # cs) sub"
    then consider "startswith (c # cs) sub" | "contains cs sub" by auto
    then show "\<exists>p q. c # cs = p @ sub @ q"
    proof cases
      case 1
      then obtain q where "c # cs = sub @ q" by (auto simp: startswith_iff)
      then have "c # cs = [] @ sub @ q" by simp
      then show ?thesis by blast
    next
      case 2
      then obtain p q where "cs = p @ sub @ q" using Cons.IH by blast
      then have "c # cs = (c # p) @ sub @ q" by simp
      then show ?thesis by blast
    qed
  next
    assume "\<exists>p q. c # cs = p @ sub @ q"
    then obtain p q where e: "c # cs = p @ sub @ q" by blast
    show "contains (c # cs) sub"
    proof (cases p)
      case Nil
      with e have "startswith (c # cs) sub" by (auto simp: startswith_iff)
      then show ?thesis by simp
    next
      case (Cons d ds)
      with e have "cs = ds @ sub @ q" by simp
      then have "contains cs sub" using Cons.IH by blast
      then show ?thesis by simp
    qed
  qed
qed

lemma split_from_not_Nil: "split_from sep cur s \<noteq> []"
  by (induction sep cur s rule: split_from.induct) simp_all

lemma join_Cons: "xs \<noteq> [] \<Longrightarrow> join sep (x # xs) = x @ sep @ join sep xs"
  by (cases xs) simp_all

lemma join_split_from: "join sep (split_from sep cur s) = cur @ s"
proof (induction sep cur s rule: split_from.induct)
  case (1 sep cur)
  show ?case by simp
next
  case (2 sep cur c cs)
  show ?case
  proof (cases "sep \<noteq> [] \<and> startswith (c # cs) sep")
    case True
    then have e: "c # cs = sep @ drop (length sep) (c # cs)"
      by (metis append_take_drop_id startswith_def)
    have "join sep (split_from sep cur (c # cs)) =
            cur @ sep @ join sep (split_from sep [] (drop (length sep) (c # cs)))"
      using True by (simp add: join_Cons split_from_not_Nil)
    also have "\<dots> = cur @ sep @ drop (length sep) (c # cs)"
      using 2(1) True by simp
    finally show ?thesis using e by simp
  next
    case False
    then show ?thesis using 2(2) by auto
  qed
qed

lemma scan_invariant_step:
  assumes "\<forall>p q. cur @ c # cs = p @ sep @ q \<longrightarrow> length cur \<le> length p"
    and "\<not> startswith (c # cs) sep"
  shows "\<forall>p q. (cur @ [c]) @ cs = p @ sep @ q \<longrightarrow> length (cur @ [c]) \<le> length p"
proof (intro allI impI)
  fix p q
  assume "(cur @ [c]) @ cs = p @ sep @ q"
  then have e: "cur @ c # cs = p @ sep @ q" by simp
  then have l: "length cur \<le> length p" using assms(1) by blast
  have "length p \<noteq> length cur"
  proof
    assume "length p = length cur"
    with e have "c # cs = sep @ q" by (metis append_eq_append_conv)
    then have "startswith (c # cs) sep" by (auto simp: startswith_iff)
    with assms(2) show False by simp
  qed
  with l show "length (cur @ [c]) \<le> length p" by simp
qed

lemma split_from_blocks:
  assumes "sep \<noteq> []" and "\<forall>p q. cur @ s = p @ sep @ q \<longrightarrow> length cur \<le> length p"
  shows "\<forall>b\<in>set (split_from sep cur s). \<not> contains b sep"
  using assms
proof (induction sep cur s rule: split_from.induct)
  case (1 sep cur)
  have "\<not> contains cur sep"
  proof
    assume "contains cur sep"
    then obtain p q where e: "cur = p @ sep @ q" by (auto simp: contains_iff)
    then have "length cur \<le> length p" using 1(2) by simp
    with e 1(1) show False
      by (metis add_diff_cancel_left' append_is_Nil_conv diff_is_0_eq' length_0_conv length_append)
  qed
  then show ?case by simp
next
  case (2 sep cur c cs)
  show ?case
  proof (cases "startswith (c # cs) sep")
    case True
    have "\<not> contains cur sep"
    proof
      assume "contains cur sep"
      then obtain p q where e: "cur = p @ sep @ q" by (auto simp: contains_iff)
      then have "cur @ c # cs = p @ sep @ (q @ c # cs)" by simp
      then have "length cur \<le> length p" using 2(4) by blast
      with e 2(3) show False
        by (metis add_diff_cancel_left' append_is_Nil_conv diff_is_0_eq' length_0_conv length_append)
    qed
    moreover have "\<forall>b\<in>set (split_from sep [] (drop (length sep) (c # cs))). \<not> contains b sep"
      using 2(1) 2(3) True by simp
    ultimately show ?thesis using True 2(3) by simp
  next
    case False
    have "\<forall>p q. (cur @ [c]) @ cs = p @ sep @ q \<longrightarrow> length (cur @ [c]) \<le> length p"
      using 2(4) False by (rule scan_invariant_step)
    then have "\<forall>b\<in>set (split_from sep (cur @ [c]) cs). \<not> contains b sep"
      using 2(2) 2(3) False by blast
    then show ?thesis using False by simp
  qed
qed

lemma split_from_leftmost:
  assumes "sep \<noteq> []" and "\<forall>p q. cur @ s = p @ sep @ q \<longrightarrow> length cur \<le> length p"
  shows "\<forall>b\<in>set (butlast (split_from sep cur s)). \<forall>p q. b @ sep = p @ sep @ q \<longrightarrow> p = b"
  using assms
proof (induction sep cur s rule: split_from.induct)
  case (1 sep cur)
  show ?case by simp
next
  case (2 sep cur c cs)
  show ?case
  proof (cases "startswith (c # cs) sep")
    case True
    then obtain r where r: "c # cs = sep @ r" by (auto simp: startswith_iff)
    have here: "\<forall>p q. cur @ sep = p @ sep @ q \<longrightarrow> p = cur"
    proof (intro allI impI)
      fix p q
      assume e: "cur @ sep = p @ sep @ q"
      then have "cur @ c # cs = p @ sep @ (q @ r)" using r by simp
      then have "length cur \<le> length p" using 2(4) by blast
      moreover have "length cur + length sep = length p + length sep + length q"
        using e by (metis length_append add.assoc)
      ultimately have "length p = length cur" by simp
      with e show "p = cur" by (metis append_eq_append_conv)
    qed
    have rest: "\<forall>b\<in>set (butlast (split_from sep [] (drop (length sep) (c # cs)))).
                  \<forall>p q. b @ sep = p @ sep @ q \<longrightarrow> p = b"
      using 2(1) 2(3) True by simp
    have "butlast (split_from sep cur (c # cs)) =
            cur # butlast (split_from sep [] (drop (length sep) (c # cs)))"
      using True 2(3) by (simp add: split_from_not_Nil)
    then show ?thesis using here rest by simp
  next
    case False
    have "\<forall>p q. (cur @ [c]) @ cs = p @ sep @ q \<longrightarrow> length (cur @ [c]) \<le> length p"
      using 2(4) False by (rule scan_invariant_step)
    then have "\<forall>b\<in>set (butlast (split_from sep (cur @ [c]) cs)).
                 \<forall>p q. b @ sep = p @ sep @ q \<longrightarrow> p = b"
      using 2(2) 2(3) False by blast
    then show ?thesis using False by simp
  qed
qed

lemma split_blocks: "sep \<noteq> [] \<Longrightarrow> \<forall>b\<in>set (split s sep). \<not> contains b sep"
  unfolding split_def by (rule split_from_blocks) simp_all

lemma split_leftmost:
  "sep \<noteq> [] \<Longrightarrow> \<forall>b\<in>set (butlast (split s sep)). \<forall>p q. b @ sep = p @ sep @ q \<longrightarrow> p = b"
  unfolding split_def by (rule split_from_leftmost) simp_all

lemma join_split: "join sep (split s sep) = s"
  by (simp add: split_def join_split_from)

section \<open>Facts about the tools and the nodes\<close>

lemma search_loop_filter:
  "search_loop qt bs acc = acc @ map strip (filter (\<lambda>b. qt \<inter> tokenize b \<noteq> {}) bs)"
  by (induction bs arbitrary: acc) simp_all

lemma search_sources_filter:
  "search_sources corpus q = map strip (filter (\<lambda>b. tokenize q \<inter> tokenize b \<noteq> {}) corpus)"
  by (simp add: search_sources_def search_loop_filter)

lemma search_sources_no_match:
  "(\<forall>b\<in>set corpus. tokenize q \<inter> tokenize b = {}) \<Longrightarrow> search_sources corpus q = []"
  by (simp add: search_sources_filter filter_empty_conv)

lemma startswith_append [simp]: "startswith (p @ s) p"
  by (simp add: startswith_def)

lemma contains_here: "startswith s sub \<Longrightarrow> contains s sub"
  by (cases s) (simp_all add: startswith_def)

lemma contains_append_left: "contains s sub \<Longrightarrow> contains (p @ s) sub"
  by (induction p) simp_all

lemma contains_middle: "contains (p @ sub @ s) sub"
  by (rule contains_append_left) (rule contains_here, simp)

lemma planner_blank:
  "strip (current_query st) = [] \<Longrightarrow> planner_node st = st\<lparr>error := ''Empty query received.''\<rparr>"
  by (simp add: planner_node_def)

lemma planner_ok:
  "strip (current_query st) \<noteq> [] \<Longrightarrow> planner_node st = st\<lparr>error := []\<rparr>"
  by (simp add: planner_node_def)

lemma responder_error:
  "error st \<noteq> [] \<Longrightarrow> responder_node st = st\<lparr>final_answer := ''Error: '' @ error st\<rparr>"
  by (simp add: responder_node_def)

lemma responder_no_sources:
  "error st = [] \<Longrightarrow> retrieved_sources st = [] \<Longrightarrow>
   responder_node st = st\<lparr>final_answer :=
     ''No relevant sources found for: '' @ [CHR 0x27] @ current_query st @ [CHR 0x27] @ ''.'' @ [nl]
       @ ''Try rephrasing your question.''\<rparr>"
  by (simp add: responder_node_def)

lemma responder_fields [simp]:
  "error (responder_node st) = error st"
  "retrieved_sources (responder_node st) = retrieved_sources st"
  "current_query (responder_node st) = current_query st"
  "conversation_history (responder_node st) = conversation_history st"
  by (simp_all add: responder_node_def Let_def)

lemma invoke_blank:
  "strip (current_query st) = [] \<Longrightarrow>
   agent_invoke_try search order st = (responder_node (planner_node st), [])"
  by (simp add: agent_invoke_try_def planner_node_def has_error_def)

lemma invoke_ok:
  "strip (current_query st) \<noteq> [] \<Longrightarrow>
   agent_invoke_try search order st =
     (responder_node (fst (researcher_node_try search order (st\<lparr>error := []\<rparr>))),
      snd (researcher_node_try search order (st\<lparr>error := []\<rparr>)))"
  by (simp add: agent_invoke_try_def planner_node_def has_error_def Let_def)

lemma researcher_fail:
  "search (current_query st) = Inl (Exception e) \<Longrightarrow>
   researcher_node_try search order st =
     (st\<lparr>error := ''Search error: '' @ e, retrieved_sources := []\<rparr>, [])"
  by (simp add: researcher_node_try_def)

lemma researcher_ok:
  "search (current_query st) = Inr srcs \<Longrightarrow>
   fst (researcher_node_try search order st) = st\<lparr>retrieved_sources := srcs\<rparr>"
  by (simp add: researcher_node_try_def)

lemma startswith_Cons_hd: "startswith l (c # p) \<Longrightarrow> l \<noteq> [] \<and> hd l = c"
  by (cases l) (simp_all add: startswith_def)

lemma content_line_not_ref:
  "startswith l ''CONTENT:'' \<Longrightarrow> \<not> startswith l ''URL:'' \<and> \<not> startswith l ''TITLE:''"
  by (auto dest!: startswith_Cons_hd)

lemma url_line_not_title: "startswith l ''URL:'' \<Longrightarrow> \<not> startswith l ''TITLE:''"
  by (auto dest!: startswith_Cons_hd)

lemma snd_scan_lines:
  "snd (scan_lines ls cr) =
     (let ms = filter (\<lambda>l. startswith l ''URL:'' \<or> startswith l ''TITLE:'') ls
      in if ms = [] then snd cr
         else if startswith (last ms) ''URL:'' then strip (replace (last ms) ''URL:'' [])
         else strip (replace (last ms) ''TITLE:'' []))"
proof (induction ls arbitrary: cr)
  case Nil
  show ?case by simp
next
  case (Cons l ls)
  show ?case
    using content_line_not_ref [of l] url_line_not_title [of l]
    by (simp add: Cons.IH scan_line_def Let_def)
qed

lemma render_loop_closed:
  "render_loop i srcs (a, rs) =
     (a @ concat (map (\<lambda>(j, src). if fst (extract_fields src) \<noteq> []
                        then ''['' @ str j @ ''] '' @ fst (extract_fields src) @ [nl, nl] else [])
                   (zip [i..<i + length srcs] srcs)),
      rs @ map (\<lambda>(j, src). ''['' @ str j @ ''] '' @ snd (extract_fields src))
             (filter (\<lambda>(j, src). snd (extract_fields src) \<noteq> []) (zip [i..<i + length srcs] srcs)))"
proof (induction srcs arbitrary: i a rs)
  case Nil
  show ?case by simp
next
  case (Cons src srcs)
  have "[i..<i + Suc (length srcs)] = i # [Suc i..<i + Suc (length srcs)]"
    by (rule upt_conv_Cons) simp
  then have u: "[i..<i + length (src # srcs)] = i # [Suc i..<Suc i + length srcs]"
    by simp
  show ?case
    unfolding u by (simp add: Cons.IH Let_def)
qed

lemma total_summarize_loop: "total_sources (summarize_loop order bs s) = total_sources s"
  by (induction bs arbitrary: s) (simp_all add: Let_def)

lemma url_summarize_loop:
  "url_sources (summarize_loop order bs s) =
     url_sources s + length (filter (\<lambda>b. contains b ''URL:'') bs)"
  by (induction bs arbitrary: s) (simp_all add: Let_def)

lemma title_summarize_loop:
  "title_sources (summarize_loop order bs s) =
     title_sources s + length (filter (\<lambda>b. contains b ''TITLE:'') bs)"
  by (induction bs arbitrary: s) (simp_all add: Let_def)

lemma topics_summarize_loop:
  "topics (summarize_loop order bs s) =
     topics s \<union> (\<Union>b\<in>set bs. set (take 3 (order (meaningful_words b))))"
  by (induction bs arbitrary: s) (auto simp add: Let_def)

lemma finite_meaningful_words: "finite (meaningful_words b)"
  by (simp add: meaningful_words_def tokenize_def)

lemma card_take3: "card (set (take 3 xs)) \<le> 3"
  by (rule order_trans [OF card_length]) simp

text \<open>
  The responder's references in closed form. The field a block yields is computed from
  the last of its lines that starts with \<^verbatim>\<open>URL:\<close> or \<^verbatim>\<open>TITLE:\<close>, by
  \<^verbatim>\<open>line.replace(prefix, "").strip()\<close>; the entries \<^verbatim>\<open>[i] reference\<close> of the blocks with a
  non-empty field, \<open>i\<close> counting the blocks from 1, close the answer after the line
  \<^verbatim>\<open>=== REFERENCES ===\<close>, joined by newlines.
\<close>

lemma responder_references_closed:
  assumes "error st = []" and "retrieved_sources st = srcs" and "srcs \<noteq> []"
  shows "(\<forall>src. snd (extract_fields src) =
            (let ms = filter (\<lambda>l. startswith l ''URL:'' \<or> startswith l ''TITLE:'')
                        (split (strip src) [nl])
             in if ms = [] then []
                else if startswith (last ms) ''URL:'' then strip (replace (last ms) ''URL:'' [])
                else strip (replace (last ms) ''TITLE:'' [])))
    \<and> (let answer0 = ''Answer based on sources for: '' @ [CHR 0x27] @ current_query st @ [CHR 0x27]
                        @ [nl, nl] @ ''=== CONTENT ==='' @ [nl, nl];
            body = fst (render_loop 1 srcs (answer0, []));
            references = map (\<lambda>(i, src). ''['' @ str i @ ''] '' @ snd (extract_fields src))
                           (filter (\<lambda>(i, src). snd (extract_fields src) \<noteq> [])
                              (zip [1..<Suc (length srcs)] srcs))
        in final_answer (responder_node st) =
             (if references = [] then body
              else body @ [nl] @ ''=== REFERENCES ==='' @ [nl] @ join [nl] references))"
proof -
  have a: "\<forall>src. snd (extract_fields src) =
            (let ms = filter (\<lambda>l. startswith l ''URL:'' \<or> startswith l ''TITLE:'')
                        (split (strip src) [nl])
             in if ms = [] then []
                else if startswith (last ms) ''URL:'' then strip (replace (last ms) ''URL:'' [])
                else strip (replace (last ms) ''TITLE:'' []))"
    by (simp add: extract_fields_def snd_scan_lines Let_def)
  have b: "snd (render_loop 1 srcs (a0, [])) =
             map (\<lambda>(i, src). ''['' @ str i @ ''] '' @ snd (extract_fields src))
               (filter (\<lambda>(i, src). snd (extract_fields src) \<noteq> []) (zip [1..<Suc (length srcs)] srcs))"
    for a0
    by (simp add: render_loop_closed)
  have c: "final_answer (responder_node st) =
     (let ar = render_loop 1 srcs (''Answer based on sources for: '' @ [CHR 0x27] @ current_query st @ [CHR 0x27]
                        @ [nl, nl] @ ''=== CONTENT ==='' @ [nl, nl], [])
      in if snd ar \<noteq> [] then fst ar @ [nl] @ ''=== REFERENCES ==='' @ [nl] @ join [nl] (snd ar)
         else fst ar)"
    using assms by (simp add: responder_node_def Let_def)
  show ?thesis
    unfolding c Let_def b using a unfolding Let_def by simp
qed

section \<open>The claims\<close>

text \<open>
  Claim C1. A turn that starts with error, final answer and retrieved sources cleared and
  with a query whose trimmed form is empty ends with the final answer
  \<^verbatim>\<open>Error: Empty query received.\<close> and no retrieved sources. The retriever is not
  called: the result is the responder applied to the planner's state, whatever the
  retriever is, and nothing is printed.
\<close>

theorem empty_query_turn:
  assumes "strip (current_query st) = []"
    and "error st = []" and "final_answer st = []" and "retrieved_sources st = []"
  shows "final_answer (fst (agent_invoke_try search order st)) = ''Error: Empty query received.''
    \<and> retrieved_sources (fst (agent_invoke_try search order st)) = []
    \<and> agent_invoke_try search order st = (responder_node (planner_node st), [])
    \<and> agent_invoke SOURCES order st = (responder_node (planner_node st), [])"
  using assms by (simp add: agent_invoke_def invoke_blank planner_blank responder_error)

theorem empty_query_turn_witness:
  "strip ''   '' = []
   \<and> agent_invoke_try (\<lambda>q. Inl (Exception ''unreachable'')) sorted_list_of_set
        \<lparr>conversation_history = [''ocean''], current_query = ''   '', retrieved_sources = [],
         final_answer = [], error = []\<rparr>
     = (\<lparr>conversation_history = [''ocean''], current_query = ''   '', retrieved_sources = [],
         final_answer = ''Error: Empty query received.'', error = ''Empty query received.''\<rparr>, [])"
proof -
  have h: "strip ''   '' = []" by code_simp
  show ?thesis
    using h empty_query_turn [of "\<lparr>conversation_history = [''ocean''], current_query = ''   '',
        retrieved_sources = [], final_answer = [], error = []\<rparr>"
        "\<lambda>q. Inl (Exception ''unreachable'')" sorted_list_of_set "[]"]
    by (simp add: planner_node_def responder_node_def)
qed

text \<open>
  Claim C2. \<^verbatim>\<open>search_sources\<close> returns, in corpus order, the trimmed blocks whose token set
  meets the token set of the query, and nothing else; the result is empty for an empty
  corpus and when no block matches.
\<close>

theorem search_sources_matching_blocks:
  "search_sources corpus q = map strip (filter (\<lambda>b. tokenize q \<inter> tokenize b \<noteq> {}) corpus)
   \<and> search_sources [] q = []
   \<and> ((\<forall>b\<in>set corpus. tokenize q \<inter> tokenize b = {}) \<longrightarrow> search_sources corpus q = [])"
  by (simp add: search_sources_filter filter_empty_conv)

theorem search_sources_matching_blocks_witness:
  "search_sources [''  TITLE: Tides '', ''CONTENT: The ocean is deep.'', ''URL: x  CONTENT: Ocean!\<newline>'']
     ''ocean currents''
   = [''CONTENT: The ocean is deep.'', ''URL: x  CONTENT: Ocean!'']"
proof -
  have e: "map strip (filter (\<lambda>b. tokenize ''ocean currents'' \<inter> tokenize b \<noteq> {})
             [''  TITLE: Tides '', ''CONTENT: The ocean is deep.'', ''URL: x  CONTENT: Ocean!\<newline>''])
           = [''CONTENT: The ocean is deep.'', ''URL: x  CONTENT: Ocean!'']"
    by code_simp
  show ?thesis
    using search_sources_matching_blocks
      [of "[''  TITLE: Tides '', ''CONTENT: The ocean is deep.'', ''URL: x  CONTENT: Ocean!\<newline>'']"
          "''ocean currents''", THEN conjunct1]
    unfolding e .
qed

text \<open>
  Claim C3, evaluated on the code. The last line that starts with \<^verbatim>\<open>URL:\<close> or
  \<^verbatim>\<open>TITLE:\<close> decides the reference, and the references close the answer, but the value
  taken from that line is computed with \<^verbatim>\<open>line.replace(prefix, "")\<close>, which deletes every
  occurrence of the prefix text in the line, as for the content field of claim C4: for
  the block \<^verbatim>\<open>URL: http://a/URL:b\<close>, which the query \<^verbatim>\<open>url\<close> retrieves, the text after
  the prefix is \<^verbatim>\<open>http://a/URL:b\<close>, and the turn records \<^verbatim>\<open>[1] http://a/b\<close>.
\<close>

theorem reference_field_inner_prefix_removed:
  "snd (extract_fields ''URL: http://a/URL:b'') = ''http://a/b''
   \<and> search_sources [''URL: http://a/URL:b''] ''url'' = [''URL: http://a/URL:b'']
   \<and> final_answer (fst (agent_invoke [''URL: http://a/URL:b''] sorted_list_of_set
        \<lparr>conversation_history = [], current_query = ''url'', retrieved_sources = [],
         final_answer = [], error = []\<rparr>))
       = ''Answer based on sources for: '' @ [CHR 0x27] @ ''url'' @ [CHR 0x27]
           @ ''\<newline>\<newline>=== CONTENT ===\<newline>\<newline>\<newline>=== REFERENCES ===\<newline>[1] http://a/b''"
  by code_simp

text \<open>
  Claim C4, evaluated on the code. The content field is computed with
  \<^verbatim>\<open>line.replace("CONTENT:", "")\<close>, which deletes every occurrence of the prefix text in
  the line, not only the prefix: for the block \<^verbatim>\<open>CONTENT: see CONTENT: below\<close> the text
  after the prefix, trimmed, is \<^verbatim>\<open>see CONTENT: below\<close>, and the responder renders
  \<^verbatim>\<open>[1] see  below\<close>.
\<close>

theorem content_field_inner_prefix_removed:
  "fst (extract_fields ''CONTENT: see CONTENT: below'') = ''see  below''
   \<and> final_answer (responder_node
        \<lparr>conversation_history = [], current_query = ''q'',
         retrieved_sources = [''CONTENT: see CONTENT: below''], final_answer = [], error = []\<rparr>)
       = ''Answer based on sources for: '' @ [CHR 0x27] @ ''q'' @ [CHR 0x27] @ ''\<newline>\<newline>=== CONTENT ===\<newline>\<newline>[1] see  below\<newline>\<newline>''"
  by code_simp

text \<open>
  Claim C5. When the trimmed query is not empty and no corpus block shares a token with
  the query (in particular when the corpus is empty), the turn ends with the answer
  \<^verbatim>\<open>No relevant sources found for: '<query>'.\<close> followed by the advice to rephrase, and
  the error field is empty.
\<close>

theorem no_match_turn:
  assumes "strip (current_query st) \<noteq> []"
    and "\<forall>b\<in>set SOURCES. tokenize (current_query st) \<inter> tokenize b = {}"
  shows "final_answer (fst (agent_invoke SOURCES order st)) =
           ''No relevant sources found for: '' @ [CHR 0x27] @ current_query st @ [CHR 0x27] @ ''.''
             @ [nl] @ ''Try rephrasing your question.''
    \<and> contains (final_answer (fst (agent_invoke SOURCES order st)))
         (''No relevant sources found for: '' @ [CHR 0x27] @ current_query st @ [CHR 0x27] @ ''.'')
    \<and> error (fst (agent_invoke SOURCES order st)) = []"
proof -
  have s: "search_sources SOURCES (current_query st) = []"
    using assms(2) by (rule search_sources_no_match)
  have r: "fst (researcher_node_try (\<lambda>q. Inr (search_sources SOURCES q)) order (st\<lparr>error := []\<rparr>))
             = st\<lparr>error := [], retrieved_sources := []\<rparr>"
    using s by (simp add: researcher_node_try_def)
  have a: "fst (agent_invoke SOURCES order st) =
             responder_node (st\<lparr>error := [], retrieved_sources := []\<rparr>)"
    using assms(1) r by (simp add: agent_invoke_def invoke_ok)
  have f: "final_answer (fst (agent_invoke SOURCES order st)) =
           (''No relevant sources found for: '' @ [CHR 0x27] @ current_query st @ [CHR 0x27] @ ''.'')
             @ [nl] @ ''Try rephrasing your question.''"
    by (simp add: a responder_no_sources)
  have c: "contains (final_answer (fst (agent_invoke SOURCES order st)))
         (''No relevant sources found for: '' @ [CHR 0x27] @ current_query st @ [CHR 0x27] @ ''.'')"
    unfolding f by (rule contains_here) (rule startswith_append)
  show ?thesis using f c by (simp add: a)
qed

theorem no_match_turn_witness:
  "strip ''mountain'' \<noteq> []
   \<and> final_answer (fst (agent_invoke [''CONTENT: The ocean is deep.''] sorted_list_of_set
        \<lparr>conversation_history = [], current_query = ''mountain'', retrieved_sources = [],
         final_answer = [], error = []\<rparr>))
     = ''No relevant sources found for: '' @ [CHR 0x27] @ ''mountain'' @ [CHR 0x27] @ ''.\<newline>Try rephrasing your question.''
   \<and> error (fst (agent_invoke [''CONTENT: The ocean is deep.''] sorted_list_of_set
        \<lparr>conversation_history = [], current_query = ''mountain'', retrieved_sources = [],
         final_answer = [], error = []\<rparr>)) = []"
proof -
  have h1: "strip ''mountain'' \<noteq> []" by code_simp
  have h2: "\<forall>b\<in>set [''CONTENT: The ocean is deep.'']. tokenize ''mountain'' \<inter> tokenize b = {}"
    by code_simp
  show ?thesis
    using h1 no_match_turn [of "\<lparr>conversation_history = [], current_query = ''mountain'',
        retrieved_sources = [], final_answer = [], error = []\<rparr>" "[''CONTENT: The ocean is deep.'']"
        sorted_list_of_set]
      h2
    by (simp add: nl_def)
qed

text \<open>
  Claim C6. When the retriever raises an exception with description \<open>e\<close>, the researcher
  returns a state: its error is \<^verbatim>\<open>Search error: \<close> followed by \<open>e\<close> and its retrieved
  sources are empty. The responder then renders \<^verbatim>\<open>Error: Search error: \<close> followed by
  \<open>e\<close>, and so does the whole turn when the query passes the planner.
\<close>

theorem retrieval_failure_turn:
  assumes "search (current_query st) = Inl (Exception e)"
  shows "researcher_node_try search order st =
           (st\<lparr>error := ''Search error: '' @ e, retrieved_sources := []\<rparr>, [])
    \<and> final_answer (responder_node (fst (researcher_node_try search order st)))
         = ''Error: '' @ ''Search error: '' @ e
    \<and> (strip (current_query st) \<noteq> [] \<longrightarrow>
         error (fst (agent_invoke_try search order st)) = ''Search error: '' @ e
       \<and> retrieved_sources (fst (agent_invoke_try search order st)) = []
       \<and> final_answer (fst (agent_invoke_try search order st)) = ''Error: '' @ ''Search error: '' @ e)"
  using assms by (simp add: invoke_ok researcher_fail responder_error)

theorem retrieval_failure_turn_witness:
  "strip ''ocean'' \<noteq> []
   \<and> agent_invoke_try (\<lambda>q. Inl (Exception ''index unavailable'')) sorted_list_of_set
        \<lparr>conversation_history = [], current_query = ''ocean'', retrieved_sources = [''stale''],
         final_answer = [], error = []\<rparr>
     = (\<lparr>conversation_history = [], current_query = ''ocean'', retrieved_sources = [],
         final_answer = ''Error: Search error: index unavailable'',
         error = ''Search error: index unavailable''\<rparr>, [])"
proof -
  have h: "strip ''ocean'' \<noteq> []" by code_simp
  have a: "agent_invoke_try (\<lambda>q. Inl (Exception ''index unavailable'')) sorted_list_of_set
        \<lparr>conversation_history = [], current_query = ''ocean'', retrieved_sources = [''stale''],
         final_answer = [], error = []\<rparr>
     = (responder_node (fst (researcher_node_try (\<lambda>q. Inl (Exception ''index unavailable''))
          sorted_list_of_set \<lparr>conversation_history = [], current_query = ''ocean'',
            retrieved_sources = [''stale''], final_answer = [], error = []\<rparr>)), [])"
    using h by (simp add: invoke_ok researcher_fail)
  show ?thesis
    using h retrieval_failure_turn [of "\<lambda>q. Inl (Exception ''index unavailable'')"
        "\<lparr>conversation_history = [], current_query = ''ocean'', retrieved_sources = [''stale''],
         final_answer = [], error = []\<rparr>" "''index unavailable''" sorted_list_of_set]
    unfolding a by (simp add: responder_node_def)
qed

text \<open>
  Claim C7. In the state a turn returns, a non-empty error field means that the final
  answer is exactly \<^verbatim>\<open>Error: \<close> followed by the error field.
\<close>

theorem error_answer_consistent:
  "error (fst (agent_invoke_try search order st)) \<noteq> [] \<Longrightarrow>
   final_answer (fst (agent_invoke_try search order st))
     = ''Error: '' @ error (fst (agent_invoke_try search order st))"
  by (cases "strip (current_query st) = []")
     (simp_all add: invoke_blank invoke_ok responder_error)

theorem error_answer_consistent_witness:
  "error (fst (agent_invoke_try (\<lambda>q. Inl (Exception ''index unavailable'')) sorted_list_of_set
        \<lparr>conversation_history = [], current_query = ''ocean'', retrieved_sources = [],
         final_answer = [], error = []\<rparr>)) \<noteq> []
   \<and> final_answer (fst (agent_invoke_try (\<lambda>q. Inl (Exception ''index unavailable'')) sorted_list_of_set
        \<lparr>conversation_history = [], current_query = ''ocean'', retrieved_sources = [],
         final_answer = [], error = []\<rparr>))
     = ''Error: Search error: index unavailable''"
proof -
  have h: "strip ''ocean'' \<noteq> []" by code_simp
  have e: "error (fst (agent_invoke_try (\<lambda>q. Inl (Exception ''index unavailable'')) sorted_list_of_set
        \<lparr>conversation_history = [], current_query = ''ocean'', retrieved_sources = [],
         final_answer = [], error = []\<rparr>)) = ''Search error: index unavailable''"
    using h by (simp add: invoke_ok researcher_fail)
  show ?thesis
    using error_answer_consistent [of "\<lambda>q. Inl (Exception ''index unavailable'')" sorted_list_of_set
        "\<lparr>conversation_history = [], current_query = ''ocean'', retrieved_sources = [],
         final_answer = [], error = []\<rparr>"]
    unfolding e by simp
qed

text \<open>
  Claim C8. For any iteration order that lists exactly the elements of a finite set,
  \<^verbatim>\<open>summarize_sources\<close> returns the number of blocks, the number of blocks containing
  \<^verbatim>\<open>URL:\<close>, the number of blocks containing \<^verbatim>\<open>TITLE:\<close>, and as topics the union of the
  blocks' contributions; a contribution holds at most 3 words, each a token of its block
  longer than 4 characters, so every topic is such a token of some block. \<open>contains\<close>,
  the model of \<^verbatim>\<open>in\<close>, holds exactly of the substrings.
\<close>

theorem summarize_sources_counts:
  assumes "\<forall>S. finite S \<longrightarrow> set (order S) = S \<and> distinct (order S)"
  shows "total_sources (summarize_sources order blocks) = length blocks
    \<and> url_sources (summarize_sources order blocks) = length (filter (\<lambda>b. contains b ''URL:'') blocks)
    \<and> title_sources (summarize_sources order blocks)
         = length (filter (\<lambda>b. contains b ''TITLE:'') blocks)
    \<and> topics (summarize_sources order blocks)
         = (\<Union>b\<in>set blocks. set (take 3 (order (meaningful_words b))))
    \<and> (\<forall>b\<in>set blocks. set (take 3 (order (meaningful_words b))) \<subseteq> {w \<in> tokenize b. 4 < length w}
          \<and> card (set (take 3 (order (meaningful_words b)))) \<le> 3)
    \<and> (\<forall>t\<in>topics (summarize_sources order blocks). \<exists>b\<in>set blocks. t \<in> tokenize b \<and> 4 < length t)
    \<and> (\<forall>b sub. contains b sub \<longleftrightarrow> (\<exists>p q. b = p @ sub @ q))"
proof -
  have sub: "set (take 3 (order (meaningful_words b))) \<subseteq> {w \<in> tokenize b. 4 < length w}" for b
  proof -
    have "set (take 3 (order (meaningful_words b))) \<subseteq> set (order (meaningful_words b))"
      by (rule set_take_subset)
    also have "\<dots> = meaningful_words b"
      using assms finite_meaningful_words by blast
    also have "\<dots> = {w \<in> tokenize b. 4 < length w}"
      by (auto simp: meaningful_words_def)
    finally show ?thesis .
  qed
  have t: "topics (summarize_sources order blocks)
         = (\<Union>b\<in>set blocks. set (take 3 (order (meaningful_words b))))"
    by (simp add: summarize_sources_def topics_summarize_loop)
  have m: "\<forall>t\<in>topics (summarize_sources order blocks). \<exists>b\<in>set blocks. t \<in> tokenize b \<and> 4 < length t"
    unfolding t using sub by blast
  show ?thesis
    using sub m t
    by (simp add: summarize_sources_def total_summarize_loop url_summarize_loop
        title_summarize_loop card_take3 contains_iff)
qed

theorem summarize_sources_counts_witness:
  "total_sources (summarize_sources sorted_list_of_set
      [''URL: http://a.example/rivers and streams'', ''TITLE: Lakes\<newline>URL: b'', ''plain water text'']) = 3
   \<and> url_sources (summarize_sources sorted_list_of_set
      [''URL: http://a.example/rivers and streams'', ''TITLE: Lakes\<newline>URL: b'', ''plain water text'']) = 2
   \<and> title_sources (summarize_sources sorted_list_of_set
      [''URL: http://a.example/rivers and streams'', ''TITLE: Lakes\<newline>URL: b'', ''plain water text'']) = 1
   \<and> topics (summarize_sources sorted_list_of_set
      [''URL: http://a.example/rivers and streams'', ''TITLE: Lakes\<newline>URL: b'', ''plain water text''])
       = {''httpaexamplerivers'', ''streams'', ''lakes'', ''title'', ''plain'', ''water''}"
proof -
  have h: "\<forall>S::string set. finite S \<longrightarrow> set (sorted_list_of_set S) = S \<and> distinct (sorted_list_of_set S)"
    by simp
  note t = summarize_sources_counts [OF h,
      of "[''URL: http://a.example/rivers and streams'', ''TITLE: Lakes\<newline>URL: b'', ''plain water text'']"]
  have 1: "total_sources (summarize_sources sorted_list_of_set
      [''URL: http://a.example/rivers and streams'', ''TITLE: Lakes\<newline>URL: b'', ''plain water text'']) = 3"
    by (subst t [THEN conjunct1]) simp
  have 2: "url_sources (summarize_sources sorted_list_of_set
      [''URL: http://a.example/rivers and streams'', ''TITLE: Lakes\<newline>URL: b'', ''plain water text'']) = 2"
    by (subst t [THEN conjunct2, THEN conjunct1]) code_simp
  have 3: "title_sources (summarize_sources sorted_list_of_set
      [''URL: http://a.example/rivers and streams'', ''TITLE: Lakes\<newline>URL: b'', ''plain water text'']) = 1"
    by (subst t [THEN conjunct2, THEN conjunct2, THEN conjunct1]) code_simp
  have 4: "topics (summarize_sources sorted_list_of_set
      [''URL: http://a.example/rivers and streams'', ''TITLE: Lakes\<newline>URL: b'', ''plain water text''])
       = {''httpaexamplerivers'', ''streams'', ''lakes'', ''title'', ''plain'', ''water''}"
    by (subst t [THEN conjunct2, THEN conjunct2, THEN conjunct2, THEN conjunct1]) code_simp
  show ?thesis using 1 2 3 4 by (intro conjI)
qed

text \<open>
  Claim C9 as stated fails on two delimiter lines in a row: the newline between them
  belongs to the first separator, and the second line stays in the block.
\<close>

theorem load_sources_adjacent_delimiters:
  "load_sources (Text ''a\<newline>---\<newline>---\<newline>b'') = Inr [''a'', ''---\<newline>b'']
   \<and> split_at_delimiter_lines ''a\<newline>---\<newline>---\<newline>b'' = [''a'', [], ''b'']
   \<and> load_sources (Text ''a\<newline>---\<newline>---\<newline>b'')
       \<noteq> Inr (split_at_delimiter_lines ''a\<newline>---\<newline>---\<newline>b'')"
  by code_simp

text \<open>
  Claim C9, amended. A missing file gives the empty sequence. Otherwise the content is
  split at the occurrences of the five characters newline, three hyphens, newline that a
  scan from the left finds without overlap: joining the blocks with that separator gives
  the content back, no block contains the separator, and in a block followed by a
  separator the separator occurs nowhere earlier than at the block's end.
\<close>

theorem load_sources_split:
  "load_sources FileNotFoundError = Inr []
   \<and> load_sources (Text content) = Inr (split content separator)
   \<and> join separator (split content separator) = content
   \<and> (\<forall>b\<in>set (split content separator). \<not> contains b separator)
   \<and> (\<forall>b\<in>set (butlast (split content separator)).
         \<forall>p q. b @ separator = p @ separator @ q \<longrightarrow> p = b)"
proof -
  have n: "separator \<noteq> []" by (simp add: separator_def)
  show ?thesis
    using split_blocks [OF n, of content] split_leftmost [OF n, of content]
    by (simp add: load_sources_def join_split)
qed

theorem load_sources_split_witness:
  "load_sources (Text ''a\<newline>---\<newline>b\<newline>c\<newline>---\<newline>'') = Inr [''a'', ''b\<newline>c'', []]
   \<and> load_sources (Text ''a\<newline>---\<newline>---\<newline>b'') = Inr [''a'', ''---\<newline>b'']
   \<and> join separator [''a'', ''---\<newline>b''] = ''a\<newline>---\<newline>---\<newline>b''"
proof -
  have 1: "load_sources (Text ''a\<newline>---\<newline>b\<newline>c\<newline>---\<newline>'') = Inr [''a'', ''b\<newline>c'', []]"
    by (subst load_sources_split [THEN conjunct2, THEN conjunct1]) code_simp
  have s: "split ''a\<newline>---\<newline>---\<newline>b'' separator = [''a'', ''---\<newline>b'']"
    by code_simp
  have 2: "load_sources (Text ''a\<newline>---\<newline>---\<newline>b'') = Inr [''a'', ''---\<newline>b'']"
    by (subst load_sources_split [THEN conjunct2, THEN conjunct1]) (simp add: s)
  have 3: "join separator [''a'', ''---\<newline>b''] = ''a\<newline>---\<newline>---\<newline>b''"
    using load_sources_split [of "''a\<newline>---\<newline>---\<newline>b''", THEN conjunct2, THEN conjunct2, THEN conjunct1]
    unfolding s .
  show ?thesis using 1 2 3 by (intro conjI)
qed

text \<open>
  Claim C10. A query that is not blank but has no token passes the planner with an empty
  error, retrieves nothing from any corpus, and the turn ends with the no-sources
  message.
\<close>

theorem punctuation_query_turn:
  assumes "strip (current_query st) \<noteq> []" and "tokenize (current_query st) = {}"
  shows "error (planner_node st) = []
    \<and> has_error (planner_node st) = ''ok''
    \<and> search_sources SOURCES (current_query st) = []
    \<and> retrieved_sources (fst (agent_invoke SOURCES order st)) = []
    \<and> final_answer (fst (agent_invoke SOURCES order st)) =
         ''No relevant sources found for: '' @ [CHR 0x27] @ current_query st @ [CHR 0x27] @ ''.''
           @ [nl] @ ''Try rephrasing your question.''"
proof -
  have s: "search_sources SOURCES (current_query st) = []"
    using assms(2) by (simp add: search_sources_filter)
  have a: "fst (agent_invoke SOURCES order st) =
             responder_node (st\<lparr>error := [], retrieved_sources := []\<rparr>)"
    using assms(1) s by (simp add: agent_invoke_def invoke_ok researcher_node_try_def)
  show ?thesis
    using assms(1) s by (simp add: a planner_ok has_error_def responder_no_sources)
qed

theorem punctuation_query_turn_witness:
  "strip ''?!'' \<noteq> [] \<and> tokenize ''?!'' = {}
   \<and> final_answer (fst (agent_invoke [''CONTENT: What?! Really.''] sorted_list_of_set
        \<lparr>conversation_history = [], current_query = ''?!'', retrieved_sources = [],
         final_answer = [], error = []\<rparr>))
     = ''No relevant sources found for: '' @ [CHR 0x27] @ ''?!'' @ [CHR 0x27] @ ''.\<newline>Try rephrasing your question.''"
proof -
  have h1: "strip ''?!'' \<noteq> []" by code_simp
  have h2: "tokenize ''?!'' = {}" by code_simp
  show ?thesis
    using h1 h2 punctuation_query_turn [of "\<lparr>conversation_history = [], current_query = ''?!'',
        retrieved_sources = [], final_answer = [], error = []\<rparr>" "[''CONTENT: What?! Really.'']"
        sorted_list_of_set]
    by (simp add: nl_def)
qed

end
